theory Spec2Isabelle
  imports Complex_Main "HOL-Library.Multiset"
begin

section \<open>Data model of the judging application\<close>

text \<open>
  The configuration of \<^verbatim>\<open>app.py\<close> is the document bound to the global \<^verbatim>\<open>config\<close>;
  here it is a parameter of every function that reads it.  A Python \<^verbatim>\<open>dict\<close> keeps its
  keys in insertion order, and the aggregation code iterates dictionaries, so a dictionary
  is an association list: looking a key up finds its entry, assigning to an existing key
  replaces the value where the key stands, assigning to a new key appends.

  Numbers: submitted scores and \<^verbatim>\<open>max_score\<close> values are Python integers (\<open>int\<close>).
  The results of Python's true division \<^verbatim>\<open>/\<close> are floats; they are modelled by exact
  rationals, so neither rounding nor the range of floats (\<^verbatim>\<open>OverflowError\<close>, infinities) is
  part of the model.  A division whose divisor is zero raises
  \<^verbatim>\<open>ZeroDivisionError\<close> and a subscript with a missing key raises \<^verbatim>\<open>KeyError\<close>; both are
  values of the type \<open>error\<close>.
\<close>

datatype error = KeyError | ZeroDivisionError

type_synonym ('k, 'v) dict = "('k \<times> 'v) list"

abbreviation dict_get :: "('k, 'v) dict \<Rightarrow> 'k \<Rightarrow> 'v option" where
  "dict_get d k \<equiv> map_of d k"

fun dict_set :: "'k \<Rightarrow> 'v \<Rightarrow> ('k, 'v) dict \<Rightarrow> ('k, 'v) dict" where
  "dict_set k v [] = [(k, v)]"
| "dict_set k v ((k', v') # d) = (if k' = k then (k', v) # d else (k', v') # dict_set k v d)"

definition py_truediv :: "rat \<Rightarrow> rat \<Rightarrow> error + rat" where
  "py_truediv a b = (if b = 0 then Inl ZeroDivisionError else Inr (a / b))"

record criterion =
  crit_name :: string
  description :: string
  max_score :: int

record category =
  cat_name :: string
  criteria :: "criterion list"

record config =
  teams :: "string list"
  judges :: "string list"
  categories :: "category list"

text \<open>The field \<^verbatim>\<open>notes\<close> of a submission is \<open>sub_notes\<close> here.\<close>

record submission =
  judge :: string
  team :: string
  scores :: "(string, (string, int) dict) dict"
  sub_notes :: string
  timestamp :: string

text \<open>The value of \<^verbatim>\<open>scores_data["scores"]\<close>: submission key to submission.\<close>

type_synonym scores_data = "(string, submission) dict"

record stat =
  avg_score :: rat
  total_possible :: int
  percentage :: rat
  judges_count :: int

type_synonym team_scores = "(string, (string, stat) dict) dict"

section \<open>\<^verbatim>\<open>calculate_all_team_scores\<close>\<close>

definition all_categories :: "config \<Rightarrow> string list" where
  "all_categories cfg = map cat_name (categories cfg)"

definition zero_stat :: stat where
  "zero_stat = \<lparr>avg_score = 0, total_possible = 0, percentage = 0, judges_count = 0\<rparr>"

text \<open>The initialisation (source lines 151 to 159), two nested iterations.\<close>

definition init_categories :: "config \<Rightarrow> (string, stat) dict" where
  "init_categories cfg = fold (\<lambda>category d. dict_set category zero_stat d) (all_categories cfg) []"

definition init_scores :: "config \<Rightarrow> team_scores" where
  "init_scores cfg = fold (\<lambda>team d. dict_set team (init_categories cfg) d) (teams cfg) []"

text \<open>
  The maximum of a category (lines 176 to 181): the sum of \<^verbatim>\<open>max_score\<close> over the criteria
  of every configured category of that name.
\<close>

definition category_max :: "config \<Rightarrow> string \<Rightarrow> int" where
  "category_max cfg category =
     sum_list (concat (map (\<lambda>cat. if cat_name cat = category then map max_score (criteria cat) else [])
                           (categories cfg)))"

text \<open>The score of one submitted category (line 184): the sum of all submitted values.\<close>

definition category_score :: "(string, int) dict \<Rightarrow> int" where
  "category_score criteria_scores = sum_list (map snd criteria_scores)"

text \<open>The update of one statistic (lines 187 to 199), in the order of the assignments.\<close>

definition update_running :: "int \<Rightarrow> int \<Rightarrow> stat \<Rightarrow> error + stat" where
  "update_running cmax cscore current0 =
     (let current = current0\<lparr>judges_count := judges_count current0 + 1\<rparr>;
          current_avg = avg_score current
      in case py_truediv (current_avg * of_int (judges_count current - 1) + of_int cscore)
                         (of_int (judges_count current)) of
           Inl e \<Rightarrow> Inl e
         | Inr new_avg \<Rightarrow>
             (if cmax > 0 then
                (case py_truediv new_avg (of_int cmax) of
                   Inl e \<Rightarrow> Inl e
                 | Inr q \<Rightarrow> Inr (current\<lparr>avg_score := new_avg, total_possible := cmax,
                                          percentage := q * 100\<rparr>))
              else Inr (current\<lparr>avg_score := new_avg, total_possible := cmax, percentage := 0\<rparr>)))"

text \<open>A loop whose body may raise: the first error ends it.\<close>

fun fold_err :: "('a \<Rightarrow> 's \<Rightarrow> error + 's) \<Rightarrow> 'a list \<Rightarrow> 's \<Rightarrow> error + 's" where
  "fold_err f [] s = Inr s"
| "fold_err f (x # xs) s = (case f x s of Inl e \<Rightarrow> Inl e | Inr s' \<Rightarrow> fold_err f xs s')"

text \<open>
  The body of the inner loop (lines 171 to 199) for one item of the submission's
  \<^verbatim>\<open>scores\<close>: a category that is not a key of the team's dictionary is passed over.
\<close>

definition process_category ::
  "config \<Rightarrow> string \<Rightarrow> string \<times> (string, int) dict \<Rightarrow> team_scores \<Rightarrow> error + team_scores" where
  "process_category cfg tm item tcs =
     (case item of (category, criteria_scores) \<Rightarrow>
        (case dict_get tcs tm of
           None \<Rightarrow> Inl KeyError
         | Some cats \<Rightarrow>
             (case dict_get cats category of
                None \<Rightarrow> Inr tcs
              | Some current \<Rightarrow>
                  (case update_running (category_max cfg category) (category_score criteria_scores) current of
                     Inl e \<Rightarrow> Inl e
                   | Inr current' \<Rightarrow> Inr (dict_set tm (dict_set category current' cats) tcs)))))"

text \<open>
  The body of the outer loop (lines 165 to 199) for one submission: a team that is not a
  key of the result is passed over.
\<close>

definition process_submission :: "config \<Rightarrow> submission \<Rightarrow> team_scores \<Rightarrow> error + team_scores" where
  "process_submission cfg data tcs =
     (if dict_get tcs (team data) = None then Inr tcs
      else fold_err (process_category cfg (team data)) (scores data) tcs)"

definition calculate_all_team_scores :: "config \<Rightarrow> scores_data \<Rightarrow> error + team_scores" where
  "calculate_all_team_scores cfg sd =
     (let team_category_scores = init_scores cfg
      in if sd = [] then Inr team_category_scores
         else fold_err (process_submission cfg) (map snd sd) team_category_scores)"

section \<open>\<^verbatim>\<open>get_category_winners\<close>\<close>

text \<open>
  \<^verbatim>\<open>list.sort(key=..., reverse=True)\<close> is a stable sort into descending order of the key:
  elements with equal keys keep their order.  It is the stable insertion sort of the
  library on the negated key.
\<close>

definition sort_reverse :: "('a \<Rightarrow> rat) \<Rightarrow> 'a list \<Rightarrow> 'a list" where
  "sort_reverse key xs = sort_key (\<lambda>x. - key x) xs"

text \<open>The candidates of one category (lines 213 to 217), in the order of the dictionary.\<close>

fun category_results :: "string \<Rightarrow> team_scores \<Rightarrow> (string \<times> rat) list" where
  "category_results category [] = []"
| "category_results category ((tm, cats) # rest) =
     (case dict_get cats category of
        None \<Rightarrow> category_results category rest
      | Some st \<Rightarrow>
          (if judges_count st > 0 then (tm, percentage st) # category_results category rest
           else category_results category rest))"

definition get_category_winners :: "config \<Rightarrow> team_scores \<Rightarrow> (string, (string \<times> rat) list) dict" where
  "get_category_winners cfg ts =
     fold (\<lambda>category cw. dict_set category (sort_reverse snd (category_results category ts)) cw)
          (all_categories cfg) []"

section \<open>Overall standings of \<^verbatim>\<open>view_leaderboard\<close>\<close>

text \<open>The inner loop (lines 689 to 692): the sum and the number of the judged categories.\<close>

definition judged_totals :: "(string, stat) dict \<Rightarrow> rat \<times> int" where
  "judged_totals cats =
     fold (\<lambda>(category, data) (total_score, total_categories).
             if judges_count data > 0 then (total_score + percentage data, total_categories + 1)
             else (total_score, total_categories))
          cats (0, 0)"

text \<open>The outer loop (lines 685 to 696).\<close>

fun overall_scores :: "team_scores \<Rightarrow> error + (string \<times> rat \<times> int) list" where
  "overall_scores [] = Inr []"
| "overall_scores ((tm, cats) # rest) =
     (case judged_totals cats of (total_score, total_categories) \<Rightarrow>
        (if total_categories > 0 then
           (case py_truediv total_score (of_int total_categories) of
              Inl e \<Rightarrow> Inl e
            | Inr avg \<Rightarrow>
                (case overall_scores rest of
                   Inl e \<Rightarrow> Inl e
                 | Inr r \<Rightarrow> Inr ((tm, avg, total_categories) # r)))
         else overall_scores rest))"

text \<open>Lines 698 to 702: the list is sorted unless it is empty.\<close>

definition overall_standings :: "team_scores \<Rightarrow> error + (string \<times> rat \<times> int) list" where
  "overall_standings ts =
     (case overall_scores ts of
        Inl e \<Rightarrow> Inl e
      | Inr os \<Rightarrow> Inr (if os = [] then [] else sort_reverse (\<lambda>x. fst (snd x)) os))"

section \<open>The save action of \<^verbatim>\<open>judge_teams\<close>\<close>

text \<open>Line 401: the key is the judge's name, an underscore and the team's name.\<close>

definition judge_key :: "string \<Rightarrow> string \<Rightarrow> string" where
  "judge_key j tm = j @ ''_'' @ tm"

text \<open>Lines 404 to 410: the entry under that key is assigned a new submission.\<close>

definition save_submission ::
  "string \<Rightarrow> string \<Rightarrow> (string, (string, int) dict) dict \<Rightarrow> string \<Rightarrow> string \<Rightarrow> scores_data \<Rightarrow> scores_data" where
  "save_submission j tm team_scores nts now sd =
     dict_set (judge_key j tm)
       \<lparr>judge = j, team = tm, scores = team_scores, sub_notes = nts, timestamp = now\<rparr> sd"

section \<open>Notions used to state the properties\<close>

text \<open>
  The keys of a dictionary filled by assigning the elements of a list in turn: every
  element once, at the place of its first occurrence.
\<close>

fun first_occs :: "'a list \<Rightarrow> 'a list" where
  "first_occs [] = []"
| "first_occs (x # xs) = x # removeAll x (first_occs xs)"

text \<open>The position of the first occurrence, as \<^verbatim>\<open>list.index\<close> gives it.\<close>

fun index_of :: "'a list \<Rightarrow> 'a \<Rightarrow> nat" where
  "index_of [] x = 0"
| "index_of (y # ys) x = (if y = x then 0 else Suc (index_of ys x))"

text \<open>
  The category scores that the submissions of a store contribute to one team and one
  category, in the order of iteration: one for each item of that category in a submission
  for that team.
\<close>

definition cat_contribs :: "string \<Rightarrow> (string, (string, int) dict) dict \<Rightarrow> int list" where
  "cat_contribs c items = map (\<lambda>it. category_score (snd it)) (filter (\<lambda>it. fst it = c) items)"

definition contribs :: "string \<Rightarrow> string \<Rightarrow> submission list \<Rightarrow> int list" where
  "contribs t c subs = concat (map (\<lambda>d. if team d = t then cat_contribs c (scores d) else []) subs)"

text \<open>
  All criterion values submitted for one team and one category, whatever the name of the
  criterion.
\<close>

definition submitted_values :: "string \<Rightarrow> string \<Rightarrow> scores_data \<Rightarrow> int list" where
  "submitted_values t c sd =
     concat (map (\<lambda>(k, d). if team d = t
                            then concat (map (\<lambda>(c', criteria_scores). if c' = c then map snd criteria_scores else [])
                                             (scores d))
                            else []) sd)"

text \<open>
  The statistic that the direct formulation gives for a list of contributed category
  scores: the sum divided by the number, and the percentage of the configured maximum.
\<close>

definition stat_of :: "config \<Rightarrow> string \<Rightarrow> int list \<Rightarrow> stat" where
  "stat_of cfg c ss =
     (if ss = [] then zero_stat
      else \<lparr>avg_score = of_int (sum_list ss) / of_int (int (length ss)),
            total_possible = category_max cfg c,
            percentage = (if category_max cfg c > 0
                          then of_int (sum_list ss) / of_int (int (length ss)) / of_int (category_max cfg c) * 100
                          else 0),
            judges_count = int (length ss)\<rparr>)"

text \<open>The result dictionary whose entry for a team and a category is \<open>F team category\<close>.\<close>

definition table :: "config \<Rightarrow> (string \<Rightarrow> string \<Rightarrow> stat) \<Rightarrow> team_scores" where
  "table cfg F = map (\<lambda>t. (t, map (\<lambda>c. (c, F t c)) (first_occs (all_categories cfg)))) (first_occs (teams cfg))"

text \<open>The read \<^verbatim>\<open>team_scores[team][category]\<close>, with \<open>None\<close> for a missing key.\<close>

definition stat_at :: "team_scores \<Rightarrow> string \<Rightarrow> string \<Rightarrow> stat option" where
  "stat_at ts t c = (case dict_get ts t of None \<Rightarrow> None | Some cats \<Rightarrow> dict_get cats c)"

text \<open>The statistics of the judged categories of one team, and the team's standing.\<close>

definition judged :: "(string, stat) dict \<Rightarrow> stat list" where
  "judged cats = filter (\<lambda>st. judges_count st > 0) (map snd cats)"

definition standing :: "string \<times> (string, stat) dict \<Rightarrow> string \<times> rat \<times> int" where
  "standing e = (fst e, sum_list (map percentage (judged (snd e))) / of_int (int (length (judged (snd e)))),
                 int (length (judged (snd e))))"

section \<open>Example data\<close>

text \<open>
  Two teams, one category with one criterion of maximum 10.  In \<open>demo_scores\<close> two judges
  score team Alpha with 6 and with 7 + 3, the 3 under a criterion name that the
  configuration does not have.  In \<open>tie_scores\<close> both teams reach the same percentage.
  In \<open>clash_store\<close> judge \<open>Ann_Lee\<close> saves for team \<open>Alpha\<close> and then judge \<open>Ann\<close> saves
  for team \<open>Lee_Alpha\<close>.
\<close>

definition demo_config :: config where
  "demo_config =
     \<lparr>teams = [''Alpha'', ''Beta''], judges = [''J1'', ''J2''],
      categories = [\<lparr>cat_name = ''Tech'',
                     criteria = [\<lparr>crit_name = ''crit'', description = '''', max_score = 10\<rparr>]\<rparr>]\<rparr>"

definition demo_scores :: scores_data where
  "demo_scores =
     [(''J1_Alpha'', \<lparr>judge = ''J1'', team = ''Alpha'', scores = [(''Tech'', [(''crit'', 6)])],
                      sub_notes = '''', timestamp = ''''\<rparr>),
      (''J2_Alpha'', \<lparr>judge = ''J2'', team = ''Alpha'', scores = [(''Tech'', [(''crit'', 7), (''other'', 3)])],
                      sub_notes = '''', timestamp = ''''\<rparr>)]"

definition demo_result :: team_scores where
  "demo_result =
     [(''Alpha'', [(''Tech'', \<lparr>avg_score = 8, total_possible = 10, percentage = 80, judges_count = 2\<rparr>)]),
      (''Beta'', [(''Tech'', \<lparr>avg_score = 0, total_possible = 0, percentage = 0, judges_count = 0\<rparr>)])]"

definition orphan :: submission where
  "orphan = \<lparr>judge = ''J1'', team = ''Gamma'', scores = [(''Tech'', [(''crit'', 9)])],
             sub_notes = '''', timestamp = ''''\<rparr>"

definition tie_scores :: scores_data where
  "tie_scores =
     [(''J1_Beta'', \<lparr>judge = ''J1'', team = ''Beta'', scores = [(''Tech'', [(''crit'', 8)])],
                     sub_notes = '''', timestamp = ''''\<rparr>),
      (''J1_Alpha'', \<lparr>judge = ''J1'', team = ''Alpha'', scores = [(''Tech'', [(''crit'', 8)])],
                      sub_notes = '''', timestamp = ''''\<rparr>)]"

definition tie_result :: team_scores where
  "tie_result =
     [(''Alpha'', [(''Tech'', \<lparr>avg_score = 8, total_possible = 10, percentage = 80, judges_count = 1\<rparr>)]),
      (''Beta'', [(''Tech'', \<lparr>avg_score = 8, total_possible = 10, percentage = 80, judges_count = 1\<rparr>)])]"

definition clash_config :: config where
  "clash_config =
     \<lparr>teams = [''Alpha'', ''Lee_Alpha''], judges = [''Ann_Lee'', ''Ann''],
      categories = [\<lparr>cat_name = ''Tech'',
                     criteria = [\<lparr>crit_name = ''crit'', description = '''', max_score = 10\<rparr>]\<rparr>]\<rparr>"

definition clash_store :: scores_data where
  "clash_store =
     save_submission ''Ann'' ''Lee_Alpha'' [(''Tech'', [(''crit'', 3)])] '''' ''t2''
       (save_submission ''Ann_Lee'' ''Alpha'' [(''Tech'', [(''crit'', 9)])] '''' ''t1'' [])"

text \<open>
  In \<open>neg_config\<close> the criteria of the category sum to \<open>- 3\<close>; in \<open>zero_config\<close> the
  category \<open>Zero\<close> has maximum 0 and is scored 5 all the same, beside a category of
  maximum 10.
\<close>

definition neg_config :: config where
  "neg_config =
     \<lparr>teams = [''Alpha''], judges = [''J1''],
      categories = [\<lparr>cat_name = ''Tech'',
                     criteria = [\<lparr>crit_name = ''crit'', description = '''', max_score = - 3\<rparr>]\<rparr>]\<rparr>"

definition neg_scores :: scores_data where
  "neg_scores =
     [(''J1_Alpha'', \<lparr>judge = ''J1'', team = ''Alpha'', scores = [(''Tech'', [(''crit'', 3)])],
                      sub_notes = '''', timestamp = ''''\<rparr>)]"

definition neg_stat :: stat where
  "neg_stat = \<lparr>avg_score = 3, total_possible = - 3, percentage = 0, judges_count = 1\<rparr>"

definition zero_config :: config where
  "zero_config =
     \<lparr>teams = [''Alpha''], judges = [''J1''],
      categories = [\<lparr>cat_name = ''Tech'',
                     criteria = [\<lparr>crit_name = ''crit'', description = '''', max_score = 10\<rparr>]\<rparr>,
                    \<lparr>cat_name = ''Zero'',
                     criteria = [\<lparr>crit_name = ''none'', description = '''', max_score = 0\<rparr>]\<rparr>]\<rparr>"

definition zero_scores :: scores_data where
  "zero_scores =
     [(''J1_Alpha'', \<lparr>judge = ''J1'', team = ''Alpha'',
                      scores = [(''Tech'', [(''crit'', 8)]), (''Zero'', [(''none'', 5)])],
                      sub_notes = '''', timestamp = ''''\<rparr>)]"

definition zero_tech :: stat where
  "zero_tech = \<lparr>avg_score = 8, total_possible = 10, percentage = 80, judges_count = 1\<rparr>"

definition zero_zero :: stat where
  "zero_zero = \<lparr>avg_score = 5, total_possible = 0, percentage = 0, judges_count = 1\<rparr>"

section \<open>Dictionaries\<close>

lemma set_first_occs [simp]: "set (first_occs xs) = set xs"
  by (induction xs) auto

lemma distinct_first_occs [simp]: "distinct (first_occs xs)"
  by (induction xs) (auto simp: distinct_removeAll)

lemma first_occs_distinct: "distinct xs \<Longrightarrow> first_occs xs = xs"
  by (induction xs) auto

lemma dict_set_const_map:
  "dict_set k v (map (\<lambda>x. (x, v)) acc) = map (\<lambda>x. (x, v)) (if k \<in> set acc then acc else acc @ [k])"
  by (induction acc) auto

lemma fold_dict_set_const:
  "fold (\<lambda>k d. dict_set k v d) ks (map (\<lambda>x. (x, v)) acc)
     = map (\<lambda>x. (x, v)) (acc @ filter (\<lambda>k. k \<notin> set acc) (first_occs ks))"
proof (induction ks arbitrary: acc)
  case Nil
  then show ?case by simp
next
  case (Cons k ks)
  show ?case
  proof (cases "k \<in> set acc")
    case True
    have "filter (\<lambda>x. x \<notin> set acc) (removeAll k (first_occs ks)) = filter (\<lambda>x. x \<notin> set acc) (first_occs ks)"
      using True by (auto simp: removeAll_filter_not_eq intro: filter_cong)
    then show ?thesis using True Cons.IH[of acc] by (simp add: dict_set_const_map)
  next
    case False
    have "filter (\<lambda>x. x \<notin> set acc) (removeAll k (first_occs ks)) = filter (\<lambda>x. x \<notin> set (acc @ [k])) (first_occs ks)"
      by (auto simp: removeAll_filter_not_eq intro: filter_cong)
    then show ?thesis using False Cons.IH[of "acc @ [k]"] by (simp add: dict_set_const_map)
  qed
qed

lemma fold_dict_set_const_Nil:
  "fold (\<lambda>k d. dict_set k v d) ks [] = map (\<lambda>x. (x, v)) (first_occs ks)"
  using fold_dict_set_const[of v ks "[]"] by simp

lemma map_of_map_self: "map_of (map (\<lambda>x. (x, f x)) ks) k = (if k \<in> set ks then Some (f k) else None)"
  by (induction ks) auto

lemma dict_set_map_distinct:
  "distinct ks \<Longrightarrow> k \<in> set ks \<Longrightarrow>
   dict_set k v (map (\<lambda>x. (x, f x)) ks) = map (\<lambda>x. (x, if x = k then v else f x)) ks"
  by (induction ks) auto

lemma dict_get_dict_set: "dict_get (dict_set a v d) k = (if k = a then Some v else dict_get d k)"
  by (induction d) auto

lemma fold_dict_set_get:
  "dict_get (fold (\<lambda>k d. dict_set k (f k) d) ks d0) k = (if k \<in> set ks then Some (f k) else dict_get d0 k)"
proof (induction ks arbitrary: d0)
  case Nil
  then show ?case by simp
next
  case (Cons a ks)
  show ?case using Cons.IH[of "dict_set a (f a) d0"] by (auto simp: dict_get_dict_set)
qed

lemma dict_set_twice: "dict_set k v (dict_set k v' d) = dict_set k v d"
  by (induction d) auto

lemma sorted_wrt_filter_iff:
  "sorted_wrt R (filter P xs) = sorted_wrt (\<lambda>a b. P a \<longrightarrow> P b \<longrightarrow> R a b) xs"
  by (induction xs) auto

lemma first_occs_index_sorted:
  "sorted_wrt (\<lambda>a b. index_of xs a < index_of xs b) (first_occs xs)"
proof (induction xs)
  case Nil
  then show ?case by simp
next
  case (Cons x xs)
  have "sorted_wrt (\<lambda>a b. a \<noteq> x \<longrightarrow> b \<noteq> x \<longrightarrow> index_of (x # xs) a < index_of (x # xs) b) (first_occs xs)"
    using Cons.IH by (rule sorted_wrt_mono_rel[rotated]) auto
  then have "sorted_wrt (\<lambda>a b. index_of (x # xs) a < index_of (x # xs) b) (removeAll x (first_occs xs))"
    by (simp add: removeAll_filter_not_eq sorted_wrt_filter_iff eq_commute)
  then show ?case by auto
qed

section \<open>The result of \<^verbatim>\<open>calculate_all_team_scores\<close> in closed form\<close>

text \<open>
  One step of the running average on the direct statistic of \<open>ss\<close> gives the direct
  statistic of \<open>ss\<close> extended by the new score; neither division fails.
\<close>

lemma update_running_stat_of:
  "update_running (category_max cfg c) s (stat_of cfg c ss) = Inr (stat_of cfg c (ss @ [s]))"
proof (cases "ss = []")
  case True
  then show ?thesis
    by (simp add: update_running_def stat_of_def zero_stat_def py_truediv_def Let_def)
next
  case False
  then have n: "length ss \<noteq> 0" by simp
  have "(rat_of_int (sum_list ss) / rat_of_int (int (length ss))) * rat_of_int (int (length ss)) = rat_of_int (sum_list ss)"
    using n by simp
  then show ?thesis using False
    by (simp add: update_running_def stat_of_def py_truediv_def Let_def add.commute)
qed

lemma table_get: "dict_get (table cfg F) t =
   (if t \<in> set (teams cfg) then Some (map (\<lambda>c. (c, F t c)) (first_occs (all_categories cfg))) else None)"
  by (simp add: table_def map_of_map_self)

lemma table_set:
  assumes "t \<in> set (teams cfg)" "c \<in> set (all_categories cfg)"
  shows "dict_set t (dict_set c v (map (\<lambda>c. (c, F t c)) (first_occs (all_categories cfg)))) (table cfg F)
         = table cfg (\<lambda>t' c'. if t' = t \<and> c' = c then v else F t' c')"
proof -
  have 1: "dict_set c v (map (\<lambda>c. (c, F t c)) (first_occs (all_categories cfg)))
        = map (\<lambda>x. (x, if x = c then v else F t x)) (first_occs (all_categories cfg))"
    using assms by (simp add: dict_set_map_distinct)
  have 2: "dict_set t r (table cfg F)
        = map (\<lambda>x. (x, if x = t then r else map (\<lambda>c. (c, F x c)) (first_occs (all_categories cfg)))) (first_occs (teams cfg))" for r
    unfolding table_def using assms
    by (simp add: dict_set_map_distinct[where f = "\<lambda>t. map (\<lambda>c. (c, F t c)) (first_occs (all_categories cfg))"])
  show ?thesis unfolding 1 2 by (auto simp: table_def)
qed

lemma table_cong:
  assumes "\<And>t c. t \<in> set (teams cfg) \<Longrightarrow> c \<in> set (all_categories cfg) \<Longrightarrow> F t c = G t c"
  shows "table cfg F = table cfg G"
  using assms by (simp add: table_def)

lemma stat_at_table:
  "stat_at (table cfg F) t c = (if t \<in> set (teams cfg) \<and> c \<in> set (all_categories cfg) then Some (F t c) else None)"
  by (simp add: stat_at_def table_get map_of_map_self)

lemma process_category_table:
  assumes t: "t \<in> set (teams cfg)"
  shows "process_category cfg t (c, cs) (table cfg (\<lambda>t' c'. stat_of cfg c' (G t' c')))
         = Inr (table cfg (\<lambda>t' c'. stat_of cfg c' (G t' c' @ (if t' = t \<and> c' = c then [category_score cs] else []))))"
proof (cases "c \<in> set (all_categories cfg)")
  case True
  have "(\<lambda>t' c'. if t' = t \<and> c' = c then stat_of cfg c (G t c @ [category_score cs]) else stat_of cfg c' (G t' c'))
      = (\<lambda>t' c'. stat_of cfg c' (G t' c' @ (if t' = t \<and> c' = c then [category_score cs] else [])))"
    by (intro ext) auto
  then show ?thesis
    using t True table_set[OF t True, of "stat_of cfg c (G t c @ [category_score cs])" "\<lambda>t' c'. stat_of cfg c' (G t' c')"]
    by (simp add: process_category_def table_get map_of_map_self update_running_stat_of)
next
  case False
  have "table cfg (\<lambda>t' c'. stat_of cfg c' (G t' c' @ (if t' = t \<and> c' = c then [category_score cs] else [])))
      = table cfg (\<lambda>t' c'. stat_of cfg c' (G t' c'))"
    using False by (auto simp: table_def)
  then show ?thesis using t False
    by (simp add: process_category_def table_get map_of_map_self)
qed

lemma cat_contribs_Cons:
  "cat_contribs c (it # items) = (if fst it = c then [category_score (snd it)] else []) @ cat_contribs c items"
  by (simp add: cat_contribs_def)

lemma fold_process_category:
  assumes t: "t \<in> set (teams cfg)"
  shows "fold_err (process_category cfg t) items (table cfg (\<lambda>t' c'. stat_of cfg c' (G t' c')))
         = Inr (table cfg (\<lambda>t' c'. stat_of cfg c' (G t' c' @ (if t' = t then cat_contribs c' items else []))))"
proof (induction items arbitrary: G)
  case Nil
  then show ?case by (simp add: cat_contribs_def cong: if_cong)
next
  case (Cons it items)
  obtain c cs where it: "it = (c, cs)" by (cases it)
  have eq: "(\<lambda>t' c'. stat_of cfg c' (G t' c' @ (if t' = t \<and> c' = c then [category_score cs] else []) @ (if t' = t then cat_contribs c' items else [])))
      = (\<lambda>t' c'. stat_of cfg c' (G t' c' @ (if t' = t then cat_contribs c' (it # items) else [])))"
    by (intro ext) (auto simp: cat_contribs_Cons it)
  show ?case
    using Cons.IH[of "\<lambda>t' c'. G t' c' @ (if t' = t \<and> c' = c then [category_score cs] else [])"]
    by (simp add: it process_category_table[OF t] eq)
qed

lemma process_submission_table:
  "process_submission cfg d (table cfg (\<lambda>t' c'. stat_of cfg c' (G t' c')))
   = Inr (table cfg (\<lambda>t' c'. stat_of cfg c' (G t' c' @ contribs t' c' [d])))"
proof (cases "team d \<in> set (teams cfg)")
  case True
  have "(\<lambda>t' c'. stat_of cfg c' (G t' c' @ (if t' = team d then cat_contribs c' (scores d) else [])))
      = (\<lambda>t' c'. stat_of cfg c' (G t' c' @ contribs t' c' [d]))"
    by (intro ext) (auto simp: contribs_def)
  then show ?thesis using True
    by (simp add: process_submission_def table_get fold_process_category)
next
  case False
  have "table cfg (\<lambda>t' c'. stat_of cfg c' (G t' c' @ contribs t' c' [d])) = table cfg (\<lambda>t' c'. stat_of cfg c' (G t' c'))"
    using False by (auto simp: table_def contribs_def)
  then show ?thesis using False
    by (simp add: process_submission_def table_get)
qed

lemma contribs_Cons: "contribs t c (d # ds) = contribs t c [d] @ contribs t c ds"
  by (simp add: contribs_def)

lemma fold_process_submission:
  "fold_err (process_submission cfg) ds (table cfg (\<lambda>t' c'. stat_of cfg c' (G t' c')))
   = Inr (table cfg (\<lambda>t' c'. stat_of cfg c' (G t' c' @ contribs t' c' ds)))"
proof (induction ds arbitrary: G)
  case Nil
  then show ?case by (simp add: contribs_def)
next
  case (Cons d ds)
  show ?case
    using Cons.IH[of "\<lambda>t' c'. G t' c' @ contribs t' c' [d]"]
    by (simp add: process_submission_table contribs_Cons[of _ _ d ds])
qed

lemma init_scores_table: "init_scores cfg = table cfg (\<lambda>t c. stat_of cfg c [])"
  by (simp add: init_scores_def init_categories_def fold_dict_set_const_Nil table_def stat_of_def)

text \<open>
  The function never raises, and its result is the table of the direct statistics of the
  contributed category scores.
\<close>

lemma calculate_all_team_scores_table:
  "calculate_all_team_scores cfg sd = Inr (table cfg (\<lambda>t c. stat_of cfg c (contribs t c (map snd sd))))"
proof (cases "sd = []")
  case True
  then show ?thesis by (simp add: calculate_all_team_scores_def init_scores_table contribs_def)
next
  case False
  then show ?thesis
    using fold_process_submission[of cfg "map snd sd" "\<lambda>t c. []"]
    by (simp add: calculate_all_team_scores_def init_scores_table)
qed

lemma avg_score_stat_of:
  "avg_score (stat_of cfg c ss) = (if ss = [] then 0 else of_int (sum_list ss) / of_int (int (length ss)))"
  by (simp add: stat_of_def zero_stat_def)

lemma judges_count_stat_of: "judges_count (stat_of cfg c ss) = int (length ss)"
  by (simp add: stat_of_def zero_stat_def)

lemma percentage_stat_of:
  "percentage (stat_of cfg c ss) =
     (if category_max cfg c > 0 then avg_score (stat_of cfg c ss) / of_int (category_max cfg c) * 100 else 0)"
  by (simp add: stat_of_def zero_stat_def)

lemma category_max_spelled:
  "category_max cfg c
   = sum_list (map max_score (concat (map criteria (filter (\<lambda>cat. cat_name cat = c) (categories cfg)))))"
proof -
  have "sum_list (concat (map (\<lambda>cat. if cat_name cat = c then map max_score (criteria cat) else []) cs))
        = sum_list (map max_score (concat (map criteria (filter (\<lambda>cat. cat_name cat = c) cs))))" for cs
    by (induction cs) auto
  then show ?thesis by (simp add: category_max_def)
qed

lemma mset_concat_map_cong:
  assumes "mset xs = mset ys"
  shows "mset (concat (map f xs)) = mset (concat (map f ys))"
proof -
  have "mset (concat (map f xs)) = sum_mset (image_mset (\<lambda>x. mset (f x)) (mset xs))" for xs
    by (induction xs) auto
  then show ?thesis using assms by simp
qed

lemma contribs_mset:
  assumes "mset sd' = mset sd"
  shows "mset (contribs t c (map snd sd')) = mset (contribs t c (map snd sd))"
proof -
  have "mset (map snd sd') = mset (map snd sd)" using assms by simp
  then show ?thesis unfolding contribs_def by (rule mset_concat_map_cong)
qed

lemma mset_sum_list_eq: "mset xs = mset ys \<Longrightarrow> sum_list xs = (sum_list ys :: int)"
  by (metis sum_mset_sum_list)

lemma sum_list_cat_contribs:
  "sum_list (cat_contribs c items)
   = sum_list (concat (map (\<lambda>(c', criteria_scores). if c' = c then map snd criteria_scores else []) items))"
  by (induction items) (auto simp: cat_contribs_def category_score_def)

lemma sum_list_contribs: "sum_list (contribs t c (map snd sd)) = sum_list (submitted_values t c sd)"
  by (induction sd) (auto simp: contribs_def submitted_values_def sum_list_cat_contribs)

section \<open>Sorting and ranking\<close>

lemma sorted_sort_reverse: "sorted_wrt (\<lambda>a b. key b \<le> key a) (sort_reverse key xs)"
proof -
  have "sorted (map (\<lambda>x. - key x) (sort_reverse key xs))"
    unfolding sort_reverse_def by (rule sorted_sort_key)
  then show ?thesis by (simp add: sorted_map)
qed

lemma set_sort_reverse: "set (sort_reverse key xs) = set xs"
  by (simp add: sort_reverse_def)

lemma mset_sort_reverse: "mset (sort_reverse key xs) = mset xs"
  by (simp add: sort_reverse_def)

lemma distinct_map_sort_reverse:
  "distinct (map f (sort_reverse key xs)) = distinct (map f xs)"
proof -
  have "mset (sort_reverse key xs) = mset xs" by (rule mset_sort_reverse)
  then have "image_mset f (mset (sort_reverse key xs)) = image_mset f (mset xs)" by (rule arg_cong)
  then have "mset (map f (sort_reverse key xs)) = mset (map f xs)" by (simp only: mset_map)
  then show ?thesis by (rule mset_eq_imp_distinct_iff)
qed

lemma sort_key_stable_wrt:
  assumes "sorted_wrt R xs"
  shows "sorted_wrt (\<lambda>a b. f a = f b \<longrightarrow> R a b) (sort_key f xs)"
proof -
  have "sorted_wrt (\<lambda>a b. f a = k \<longrightarrow> f b = k \<longrightarrow> R a b) (sort_key f xs)" for k
  proof -
    have "sorted_wrt R (filter (\<lambda>y. f y = k) xs)" using assms by (rule sorted_wrt_filter)
    then have "sorted_wrt R (filter (\<lambda>y. f y = k) (sort_key f xs))" by (simp only: sort_key_stable)
    then show ?thesis by (simp only: sorted_wrt_filter_iff)
  qed
  then show ?thesis
    by (auto simp: sorted_wrt_iff_nth_less)
qed

lemma category_results_set:
  "(tm, p) \<in> set (category_results c ts) \<longleftrightarrow>
     (\<exists>cats st. (tm, cats) \<in> set ts \<and> dict_get cats c = Some st \<and> judges_count st > 0 \<and> p = percentage st)"
  by (induction c ts rule: category_results.induct) (auto split: option.splits)

lemma category_results_fst: "set (map fst (category_results c ts)) \<subseteq> set (map fst ts)"
  by (induction c ts rule: category_results.induct) (auto split: option.splits)

lemma category_results_distinct:
  "distinct (map fst ts) \<Longrightarrow> distinct (map fst (category_results c ts))"
proof (induction c ts rule: category_results.induct)
  case (1 category)
  then show ?case by simp
next
  case (2 category tm cats rest)
  have "tm \<notin> set (map fst (category_results category rest))"
    using "2.prems" category_results_fst[of category rest] by auto
  then show ?case using 2 by (auto split: option.splits)
qed

lemma category_results_rows:
  "category_results c (map (\<lambda>t. (t, map (\<lambda>c. (c, F t c)) cs)) ks)
   = (if c \<in> set cs then map (\<lambda>t. (t, percentage (F t c))) (filter (\<lambda>t. judges_count (F t c) > 0) ks) else [])"
  by (induction ks) (auto simp: map_of_map_self)

lemma category_results_table_sorted:
  "sorted_wrt (\<lambda>a b. index_of (teams cfg) (fst a) < index_of (teams cfg) (fst b)) (category_results c (table cfg F))"
proof -
  have "sorted_wrt (\<lambda>a b. index_of (teams cfg) a < index_of (teams cfg) b)
          (filter (\<lambda>t. judges_count (F t c) > 0) (first_occs (teams cfg)))"
    by (rule sorted_wrt_filter) (rule first_occs_index_sorted)
  then show ?thesis
    by (simp add: table_def category_results_rows sorted_wrt_map)
qed

section \<open>Overall standings in closed form\<close>

lemma fold_judged:
  "fold (\<lambda>(category, data) (total_score, total_categories).
             if judges_count data > 0 then (total_score + percentage data, total_categories + 1)
             else (total_score, total_categories)) cats (a, n)
   = (a + sum_list (map percentage (judged cats)), n + int (length (judged cats)))"
  by (induction cats arbitrary: a n) (auto simp: judged_def)

lemma judged_totals_eq:
  "judged_totals cats = (sum_list (map percentage (judged cats)), int (length (judged cats)))"
  by (simp add: judged_totals_def fold_judged)

lemma overall_scores_eq:
  "overall_scores ts = Inr (map standing (filter (\<lambda>e. judged (snd e) \<noteq> []) ts))"
  by (induction ts rule: overall_scores.induct)
     (auto simp: judged_totals_eq py_truediv_def standing_def)

lemma overall_standings_eq:
  "overall_standings ts
   = Inr (sort_reverse (\<lambda>x. fst (snd x)) (map standing (filter (\<lambda>e. judged (snd e) \<noteq> []) ts)))"
  by (simp add: overall_standings_def overall_scores_eq sort_reverse_def)

section \<open>The examples evaluated\<close>

lemmas eval_defs = calculate_all_team_scores_def init_scores_def
      init_categories_def all_categories_def zero_stat_def process_submission_def process_category_def
      update_running_def category_max_def category_score_def py_truediv_def Let_def

lemma demo_team: "''Alpha'' \<in> set (teams demo_config)"
  by (simp add: demo_config_def)

lemma demo_category: "''Tech'' \<in> set (all_categories demo_config)"
  by (simp add: demo_config_def all_categories_def)

lemma neg_calc:
  "calculate_all_team_scores neg_config neg_scores = Inr [(''Alpha'', [(''Tech'', neg_stat)])]"
  by (simp add: eval_defs neg_config_def neg_scores_def neg_stat_def)

lemma zero_calc:
  "calculate_all_team_scores zero_config zero_scores
   = Inr [(''Alpha'', [(''Tech'', zero_tech), (''Zero'', zero_zero)])]"
  by (simp add: eval_defs zero_config_def zero_scores_def zero_tech_def zero_zero_def)

lemma orphan_unknown: "team orphan \<notin> set (teams demo_config)"
  by (simp add: orphan_def demo_config_def)

lemma demo_calc: "calculate_all_team_scores demo_config demo_scores = Inr demo_result"
  by (simp add: eval_defs demo_config_def demo_scores_def demo_result_def)

lemma demo_winners: "get_category_winners demo_config demo_result = [(''Tech'', [(''Alpha'', 80)])]"
  by (simp add: get_category_winners_def sort_reverse_def all_categories_def demo_config_def demo_result_def)

lemma demo_standings: "overall_standings demo_result = Inr [(''Alpha'', 80, 1)]"
  by (simp add: overall_standings_def judged_totals_def py_truediv_def sort_reverse_def demo_result_def)

lemma tie_calc: "calculate_all_team_scores demo_config tie_scores = Inr tie_result"
  by (simp add: eval_defs demo_config_def tie_scores_def tie_result_def)

lemma tie_winners:
  "dict_get (get_category_winners demo_config tie_result) ''Tech'' = Some [(''Alpha'', 80), (''Beta'', 80)]"
  by (simp add: get_category_winners_def sort_reverse_def all_categories_def demo_config_def tie_result_def)

lemma resubmission_replaces:
  "save_submission j tm s2 n2 t2 (save_submission j tm s1 n1 t1 sd) = save_submission j tm s2 n2 t2 sd"
  by (simp add: save_submission_def dict_set_twice)

lemma resubmission_counts_once:
  "calculate_all_team_scores demo_config
     (save_submission ''J1'' ''Alpha'' [(''Tech'', [(''crit'', 8)])] '''' ''t2''
        (save_submission ''J1'' ''Alpha'' [(''Tech'', [(''crit'', 5)])] '''' ''t1'' []))
   = Inr [(''Alpha'', [(''Tech'', \<lparr>avg_score = 8, total_possible = 10, percentage = 80, judges_count = 1\<rparr>)]),
          (''Beta'', [(''Tech'', zero_stat)])]"
  by (simp add: judge_key_def save_submission_def eval_defs demo_config_def)

section \<open>Properties of the aggregation engine\<close>

text \<open>
  C1.  For a configured team and category, let \<open>s1, ..., sn\<close> be the category scores that
  the submissions of the store contribute.  The entry of the result has \<open>judges_count = n\<close>
  and, for \<open>n > 0\<close>, \<open>avg_score = (s1 + ... + sn) / n\<close>, although the code computes it by
  the incremental update \<open>(old_avg * (n - 1) + score) / n\<close>.  For every store \<open>sd'\<close> holding
  the same submissions in another order the average and the count are the same.  Numbers
  are exact rationals, so the statement is the claim without its rounding.
\<close>

theorem incremental_mean:
  assumes "t \<in> set (teams cfg)" and "c \<in> set (all_categories cfg)" and "mset sd' = mset sd"
  shows "\<exists>ts st ts' st'.
           calculate_all_team_scores cfg sd = Inr ts \<and> stat_at ts t c = Some st \<and>
           calculate_all_team_scores cfg sd' = Inr ts' \<and> stat_at ts' t c = Some st' \<and>
           judges_count st = int (length (contribs t c (map snd sd))) \<and>
           (contribs t c (map snd sd) \<noteq> [] \<longrightarrow>
              avg_score st = of_int (sum_list (contribs t c (map snd sd)))
                             / of_int (int (length (contribs t c (map snd sd))))) \<and>
           avg_score st' = avg_score st \<and> judges_count st' = judges_count st"
proof -
  let ?ss = "contribs t c (map snd sd)" and ?ss' = "contribs t c (map snd sd')"
  have m: "mset ?ss' = mset ?ss" using assms(3) by (rule contribs_mset)
  have s: "sum_list ?ss' = sum_list ?ss" using m by (rule mset_sum_list_eq)
  have l: "length ?ss' = length ?ss" using m by (rule mset_eq_length)
  have e: "(?ss' = []) = (?ss = [])" using l by (metis length_0_conv)
  have a: "avg_score (stat_of cfg c ?ss') = avg_score (stat_of cfg c ?ss)"
    by (simp only: avg_score_stat_of s l e)
  show ?thesis
    using assms(1,2) a l
    by (simp add: calculate_all_team_scores_table stat_at_table avg_score_stat_of judges_count_stat_of)
qed

theorem incremental_mean_witness:
  "\<exists>ts st. calculate_all_team_scores demo_config demo_scores = Inr ts \<and>
     stat_at ts ''Alpha'' ''Tech'' = Some st \<and> avg_score st = 8 \<and> judges_count st = 2 \<and>
     contribs ''Alpha'' ''Tech'' (map snd demo_scores) = [6, 10]"
proof -
  have c: "contribs ''Alpha'' ''Tech'' (map snd demo_scores) = [6, 10]"
    by (simp add: contribs_def cat_contribs_def category_score_def demo_scores_def)
  have p: "mset (rev demo_scores) = mset demo_scores" by simp
  show ?thesis
    using incremental_mean[OF demo_team demo_category p] c by auto
qed

text \<open>
  C2.  For a configured team and category, the structure built before any submission is
  processed has the entry with average 0, total possible 0, percentage 0 and count 0; this
  structure is the result for the empty store; and for every store the result has an
  entry for the pair.
\<close>

theorem every_pair_initialised:
  assumes "t \<in> set (teams cfg)" and "c \<in> set (all_categories cfg)"
  shows "stat_at (init_scores cfg) t c = Some zero_stat \<and>
         calculate_all_team_scores cfg [] = Inr (init_scores cfg) \<and>
         (\<exists>ts st. calculate_all_team_scores cfg sd = Inr ts \<and> stat_at ts t c = Some st)"
  using assms
  by (simp add: calculate_all_team_scores_table stat_at_table init_scores_table stat_of_def contribs_def)

theorem every_pair_initialised_witness:
  "stat_at (init_scores demo_config) ''Alpha'' ''Tech'' = Some zero_stat \<and>
   calculate_all_team_scores demo_config [] = Inr (init_scores demo_config) \<and>
   (\<exists>ts st. calculate_all_team_scores demo_config demo_scores = Inr ts \<and>
            stat_at ts ''Alpha'' ''Tech'' = Some st)"
  by (rule every_pair_initialised[OF demo_team demo_category])

text \<open>
  C3.  The key of the save action is not unique for each pair of judge and team: the pairs
  (\<open>Ann_Lee\<close>, \<open>Alpha\<close>) and (\<open>Ann\<close>, \<open>Lee_Alpha\<close>) are distinct and have the same key.
  After the two saves the store holds one entry, the second judge's, and team \<open>Alpha\<close> is
  counted as judged by nobody.  (That a second save by the same judge for the same team
  replaces the first is \<open>resubmission_replaces\<close> above.)
\<close>

theorem judge_key_collision:
  "(''Ann_Lee'', ''Alpha'') \<noteq> (''Ann'', ''Lee_Alpha'') \<and>
   judge_key ''Ann_Lee'' ''Alpha'' = judge_key ''Ann'' ''Lee_Alpha'' \<and>
   clash_store = [(''Ann_Lee_Alpha'', \<lparr>judge = ''Ann'', team = ''Lee_Alpha'', scores = [(''Tech'', [(''crit'', 3)])],
                                        sub_notes = '''', timestamp = ''t2''\<rparr>)] \<and>
   (\<exists>ts st. calculate_all_team_scores clash_config clash_store = Inr ts \<and>
            stat_at ts ''Alpha'' ''Tech'' = Some st \<and> judges_count st = 0)"
  by (simp add: judge_key_def clash_store_def save_submission_def eval_defs clash_config_def stat_at_def)

text \<open>
  C4.  For every configured category the result of \<^verbatim>\<open>get_category_winners\<close> has a ranking.
  A pair of team and percentage is in it exactly if the team has, in the given statistics,
  an entry for the category with \<open>judges_count > 0\<close> and that percentage; the ranking is in
  descending order of percentage; no team is listed twice when the keys of the statistics
  are distinct, as the keys of a dictionary are; and when no team qualifies the ranking is
  the empty list.
\<close>

theorem category_ranking:
  assumes "c \<in> set (all_categories cfg)"
  shows "\<exists>r. dict_get (get_category_winners cfg ts) c = Some r \<and>
           (\<forall>tm p. (tm, p) \<in> set r \<longleftrightarrow>
              (\<exists>cats st. (tm, cats) \<in> set ts \<and> dict_get cats c = Some st \<and> judges_count st > 0
                          \<and> p = percentage st)) \<and>
           sorted_wrt (\<lambda>a b. snd b \<le> snd a) r \<and>
           (distinct (map fst ts) \<longrightarrow> distinct (map fst r)) \<and>
           ((\<forall>cats st. (\<exists>tm. (tm, cats) \<in> set ts) \<and> dict_get cats c = Some st \<longrightarrow> judges_count st \<le> 0) \<longrightarrow> r = [])"
proof -
  let ?r = "sort_reverse snd (category_results c ts)"
  have g: "dict_get (get_category_winners cfg ts) c = Some ?r"
    using assms unfolding get_category_winners_def
    by (simp add: fold_dict_set_get[where f = "\<lambda>category. sort_reverse snd (category_results category ts)"])
  have m: "(tm, p) \<in> set ?r \<longleftrightarrow>
             (\<exists>cats st. (tm, cats) \<in> set ts \<and> dict_get cats c = Some st \<and> judges_count st > 0 \<and> p = percentage st)" for tm p
    by (simp only: set_sort_reverse category_results_set)
  have s: "sorted_wrt (\<lambda>a b. snd b \<le> snd a) ?r" by (rule sorted_sort_reverse)
  have d: "distinct (map fst ?r)" if "distinct (map fst ts)"
  proof -
    have "mset (map fst ?r) = mset (map fst (category_results c ts))"
      by (simp add: mset_sort_reverse)
    then show ?thesis using category_results_distinct[OF that, of c] by (metis mset_eq_imp_distinct_iff)
  qed
  have e: "?r = []" if "\<forall>cats st. (\<exists>tm. (tm, cats) \<in> set ts) \<and> dict_get cats c = Some st \<longrightarrow> judges_count st \<le> 0"
  proof (rule ccontr)
    assume "?r \<noteq> []"
    then obtain tm p where "(tm, p) \<in> set ?r" by (cases ?r) auto
    then obtain cats st where "(tm, cats) \<in> set ts" "dict_get cats c = Some st" "judges_count st > 0"
      using m by blast
    then show False using that by fastforce
  qed
  show ?thesis using g m s d e by blast
qed

theorem category_ranking_witness:
  "\<exists>r. dict_get (get_category_winners demo_config demo_result) ''Tech'' = Some r \<and>
       (\<forall>tm p. (tm, p) \<in> set r \<longleftrightarrow>
          (\<exists>cats st. (tm, cats) \<in> set demo_result \<and> dict_get cats ''Tech'' = Some st \<and>
                      judges_count st > 0 \<and> p = percentage st)) \<and>
       sorted_wrt (\<lambda>a b. snd b \<le> snd a) r \<and>
       (distinct (map fst demo_result) \<longrightarrow> distinct (map fst r)) \<and>
       ((\<forall>cats st. (\<exists>tm. (tm, cats) \<in> set demo_result) \<and> dict_get cats ''Tech'' = Some st
                    \<longrightarrow> judges_count st \<le> 0) \<longrightarrow> r = [])"
  by (rule category_ranking[OF demo_category])

text \<open>
  C5.  In a category ranking computed from the result of \<^verbatim>\<open>calculate_all_team_scores\<close>,
  of two entries with equal percentage the earlier one belongs to the team that comes
  first in the configured team list.
\<close>

theorem ties_in_team_order:
  assumes "calculate_all_team_scores cfg sd = Inr ts"
    and "dict_get (get_category_winners cfg ts) c = Some r"
    and "i < j" and "j < length r" and "snd (r ! i) = snd (r ! j)"
  shows "index_of (teams cfg) (fst (r ! i)) < index_of (teams cfg) (fst (r ! j))"
proof -
  have ts: "ts = table cfg (\<lambda>t c. stat_of cfg c (contribs t c (map snd sd)))"
    using assms(1) by (simp add: calculate_all_team_scores_table)
  have "dict_get (get_category_winners cfg ts) c
        = (if c \<in> set (all_categories cfg) then Some (sort_reverse snd (category_results c ts)) else None)"
    unfolding get_category_winners_def
    by (simp add: fold_dict_set_get[where f = "\<lambda>category. sort_reverse snd (category_results category ts)"])
  then have r: "r = sort_key (\<lambda>x. - snd x) (category_results c ts)"
    using assms(2) by (auto simp: sort_reverse_def split: if_splits)
  have "sorted_wrt (\<lambda>a b. - snd a = - snd b \<longrightarrow> index_of (teams cfg) (fst a) < index_of (teams cfg) (fst b)) r"
    unfolding r ts by (rule sort_key_stable_wrt) (rule category_results_table_sorted)
  then show ?thesis using assms(3-5) by (simp add: sorted_wrt_iff_nth_less)
qed

theorem ties_witness:
  "calculate_all_team_scores demo_config tie_scores = Inr tie_result \<and>
   dict_get (get_category_winners demo_config tie_result) ''Tech'' = Some [(''Alpha'', 80), (''Beta'', 80)] \<and>
   index_of (teams demo_config) (fst ([(''Alpha'', 80::rat), (''Beta'', 80)] ! 0))
     < index_of (teams demo_config) (fst ([(''Alpha'', 80::rat), (''Beta'', 80)] ! 1))"
proof -
  have "index_of (teams demo_config) (fst ([(''Alpha'', 80::rat), (''Beta'', 80)] ! 0))
     < index_of (teams demo_config) (fst ([(''Alpha'', 80::rat), (''Beta'', 80)] ! 1))"
    by (rule ties_in_team_order[OF tie_calc tie_winners]) simp_all
  then show ?thesis using tie_calc tie_winners by blast
qed

text \<open>
  C6.  The computation of the overall standings does not fail.  A triple of team, score
  and count is in the standings exactly if the team has an entry in the statistics whose
  number of categories with \<open>judges_count > 0\<close> is that count, the count is positive, and
  the score is the sum of the percentages of those categories divided by the count.  The
  standings are in descending order of score.  A team without a judged category is
  absent, and no team is listed twice when the keys of the statistics are distinct.
\<close>

theorem overall_standings_correct:
  "\<exists>r. overall_standings ts = Inr r \<and>
     (\<forall>tm s n. (tm, s, n) \<in> set r \<longleftrightarrow>
        (\<exists>cats. (tm, cats) \<in> set ts \<and> n = int (length (judged cats)) \<and> 0 < n \<and>
                 s = sum_list (map percentage (judged cats)) / of_int n)) \<and>
     sorted_wrt (\<lambda>a b. fst (snd b) \<le> fst (snd a)) r \<and>
     (distinct (map fst ts) \<longrightarrow> distinct (map fst r))"
proof -
  let ?os = "map standing (filter (\<lambda>e. judged (snd e) \<noteq> []) ts)"
  let ?r = "sort_reverse (\<lambda>x. fst (snd x)) ?os"
  have m: "(tm, s, n) \<in> set ?r \<longleftrightarrow>
        (\<exists>cats. (tm, cats) \<in> set ts \<and> n = int (length (judged cats)) \<and> 0 < n \<and>
                 s = sum_list (map percentage (judged cats)) / of_int n)" for tm s n
    by (auto simp: set_sort_reverse standing_def image_iff)
  have s: "sorted_wrt (\<lambda>a b. fst (snd b) \<le> fst (snd a)) ?r" by (rule sorted_sort_reverse)
  have d: "distinct (map fst ?r)" if "distinct (map fst ts)"
  proof -
    have "map fst ?os = map fst (filter (\<lambda>e. judged (snd e) \<noteq> []) ts)"
      by (simp add: standing_def comp_def)
    moreover have "distinct (map fst (filter (\<lambda>e. judged (snd e) \<noteq> []) ts))"
      using that by (rule distinct_map_filter)
    ultimately have "distinct (map fst ?os)" by (simp only:)
    then show ?thesis by (simp only: distinct_map_sort_reverse)
  qed
  show ?thesis using m s d by (simp only: overall_standings_eq) blast
qed

theorem overall_standings_correct_witness:
  "\<exists>r. overall_standings demo_result = Inr r \<and>
     (\<forall>tm s n. (tm, s, n) \<in> set r \<longleftrightarrow>
        (\<exists>cats. (tm, cats) \<in> set demo_result \<and> n = int (length (judged cats)) \<and> 0 < n \<and>
                 s = sum_list (map percentage (judged cats)) / of_int n)) \<and>
     sorted_wrt (\<lambda>a b. fst (snd b) \<le> fst (snd a)) r \<and>
     (distinct (map fst demo_result) \<longrightarrow> distinct (map fst r))"
  by (rule overall_standings_correct)

text \<open>
  C7.  \<^verbatim>\<open>calculate_all_team_scores\<close> never divides by zero, whatever the configuration
  and the store, and every entry of its result has percentage
  \<open>avg_score / category_max * 100\<close> if the \<^verbatim>\<open>max_score\<close> values that the configuration gives
  the criteria of the category sum to more than 0, and percentage 0 if they sum to 0 or to
  less.  The code tests \<^verbatim>\<open>category_max > 0\<close>, so a negative sum gives 0 and not the quotient:
  in \<open>neg_config\<close> the sum is \<open>- 3\<close>, the average is 3 and the percentage is 0, not
  \<open>- 100\<close>.  The sum is written out here and does not go through \<open>category_max\<close>.
  Arithmetic is exact, so what is excluded is \<^verbatim>\<open>ZeroDivisionError\<close>; the range of floats is
  not part of the model.
\<close>

theorem percentage_by_guard:
  "\<exists>ts. calculate_all_team_scores cfg sd = Inr ts \<and>
        calculate_all_team_scores cfg sd \<noteq> Inl ZeroDivisionError \<and>
        (\<forall>t c st. stat_at ts t c = Some st \<longrightarrow>
           (sum_list (map max_score (concat (map criteria
                (filter (\<lambda>cat. cat_name cat = c) (categories cfg))))) \<le> 0
              \<longrightarrow> percentage st = 0) \<and>
           (0 < sum_list (map max_score (concat (map criteria
                (filter (\<lambda>cat. cat_name cat = c) (categories cfg)))))
              \<longrightarrow> percentage st
                  = avg_score st
                    / of_int (sum_list (map max_score (concat (map criteria
                        (filter (\<lambda>cat. cat_name cat = c) (categories cfg))))))
                    * 100))"
  by (auto simp: calculate_all_team_scores_table stat_at_table percentage_stat_of
      simp flip: category_max_spelled split: if_splits)

theorem percentage_by_guard_witness:
  "calculate_all_team_scores zero_config zero_scores
     = Inr [(''Alpha'', [(''Tech'', zero_tech), (''Zero'', zero_zero)])] \<and>
   sum_list (map max_score (concat (map criteria
      (filter (\<lambda>cat. cat_name cat = ''Zero'') (categories zero_config))))) = 0 \<and>
   avg_score zero_zero = 5 \<and> percentage zero_zero = 0 \<and>
   sum_list (map max_score (concat (map criteria
      (filter (\<lambda>cat. cat_name cat = ''Tech'') (categories zero_config))))) = 10 \<and>
   avg_score zero_tech = 8 \<and> percentage zero_tech = avg_score zero_tech / 10 * 100 \<and>
   percentage zero_tech = 80"
proof -
  let ?r = "[(''Alpha'', [(''Tech'', zero_tech), (''Zero'', zero_zero)])]"
  have mz: "sum_list (map max_score (concat (map criteria
      (filter (\<lambda>cat. cat_name cat = ''Zero'') (categories zero_config))))) = 0"
    by (simp add: zero_config_def)
  have mt: "sum_list (map max_score (concat (map criteria
      (filter (\<lambda>cat. cat_name cat = ''Tech'') (categories zero_config))))) = 10"
    by (simp add: zero_config_def)
  obtain ts where ts: "calculate_all_team_scores zero_config zero_scores = Inr ts"
    and g: "\<And>t c st. stat_at ts t c = Some st \<Longrightarrow>
           (sum_list (map max_score (concat (map criteria
                (filter (\<lambda>cat. cat_name cat = c) (categories zero_config))))) \<le> 0
              \<longrightarrow> percentage st = 0) \<and>
           (0 < sum_list (map max_score (concat (map criteria
                (filter (\<lambda>cat. cat_name cat = c) (categories zero_config)))))
              \<longrightarrow> percentage st
                  = avg_score st
                    / of_int (sum_list (map max_score (concat (map criteria
                        (filter (\<lambda>cat. cat_name cat = c) (categories zero_config))))))
                    * 100)"
    using percentage_by_guard[of zero_config zero_scores] by blast
  have r: "ts = ?r" using ts zero_calc by simp
  have sz: "stat_at ts ''Alpha'' ''Zero'' = Some zero_zero" by (simp add: r stat_at_def)
  have st: "stat_at ts ''Alpha'' ''Tech'' = Some zero_tech" by (simp add: r stat_at_def)
  have pz: "percentage zero_zero = 0" using g[OF sz] mz by simp
  have pt: "percentage zero_tech = avg_score zero_tech / 10 * 100" using g[OF st] mt by simp
  have at: "avg_score zero_tech = 8" by (simp add: zero_tech_def)
  have az: "avg_score zero_zero = 5" by (simp add: zero_zero_def)
  have p80: "percentage zero_tech = 80" using pt at by simp
  show ?thesis using zero_calc mz mt pz pt at az p80 by simp
qed

theorem percentage_nonzero_max_counterexample:
  "calculate_all_team_scores neg_config neg_scores = Inr [(''Alpha'', [(''Tech'', neg_stat)])] \<and>
   stat_at [(''Alpha'', [(''Tech'', neg_stat)])] ''Alpha'' ''Tech'' = Some neg_stat \<and>
   category_max neg_config ''Tech'' = - 3 \<and>
   category_max neg_config ''Tech'' \<noteq> 0 \<and>
   percentage neg_stat = 0 \<and>
   avg_score neg_stat / of_int (category_max neg_config ''Tech'') * 100 = - 100 \<and>
   percentage neg_stat \<noteq> avg_score neg_stat / of_int (category_max neg_config ''Tech'') * 100"
proof -
  have m: "category_max neg_config ''Tech'' = - 3"
    by (simp add: category_max_def neg_config_def)
  show ?thesis
    by (simp add: neg_calc m stat_at_def neg_stat_def)
qed

text \<open>
  C8.  A submission whose team is not a configured team changes nothing: the result for a
  store that holds it, at any place, is the result for the store without it, and it is
  a result, not an error.
\<close>

theorem unknown_team_skipped:
  assumes "team d \<notin> set (teams cfg)"
  shows "calculate_all_team_scores cfg (sd1 @ (k, d) # sd2) = calculate_all_team_scores cfg (sd1 @ sd2) \<and>
         (\<exists>ts. calculate_all_team_scores cfg (sd1 @ (k, d) # sd2) = Inr ts)"
proof -
  have "t \<in> set (teams cfg) \<Longrightarrow> contribs t c (map snd (sd1 @ (k, d) # sd2)) = contribs t c (map snd (sd1 @ sd2))" for t c
    using assms by (auto simp: contribs_def)
  then have "table cfg (\<lambda>t c. stat_of cfg c (contribs t c (map snd (sd1 @ (k, d) # sd2))))
           = table cfg (\<lambda>t c. stat_of cfg c (contribs t c (map snd (sd1 @ sd2))))"
    by (intro table_cong) simp
  then show ?thesis by (simp only: calculate_all_team_scores_table) simp
qed

theorem unknown_team_skipped_witness:
  "calculate_all_team_scores demo_config ([] @ (''J1_Gamma'', orphan) # demo_scores)
     = calculate_all_team_scores demo_config ([] @ demo_scores) \<and>
   (\<exists>ts. calculate_all_team_scores demo_config ([] @ (''J1_Gamma'', orphan) # demo_scores) = Inr ts)"
  by (rule unknown_team_skipped[OF orphan_unknown])

text \<open>
  C9.  For a configured team and category, the average times the count is the sum of all
  criterion values submitted for that team and category, whatever the criterion names,
  and once a submission has counted, the total possible is the sum of \<^verbatim>\<open>max_score\<close> over
  the criteria that the configuration gives the category.
\<close>

theorem score_from_submission_max_from_config:
  assumes "t \<in> set (teams cfg)" and "c \<in> set (all_categories cfg)"
  shows "\<exists>ts st. calculate_all_team_scores cfg sd = Inr ts \<and> stat_at ts t c = Some st \<and>
           avg_score st * of_int (judges_count st) = of_int (sum_list (submitted_values t c sd)) \<and>
           (judges_count st > 0 \<longrightarrow>
              total_possible st
              = sum_list (map max_score (concat (map criteria (filter (\<lambda>cat. cat_name cat = c) (categories cfg))))))"
proof -
  have "sum_list (concat (map (\<lambda>cat. if cat_name cat = c then map max_score (criteria cat) else []) cs))
        = sum_list (map max_score (concat (map criteria (filter (\<lambda>cat. cat_name cat = c) cs))))" for cs
    by (induction cs) auto
  then have cm: "category_max cfg c = sum_list (map max_score (concat (map criteria (filter (\<lambda>cat. cat_name cat = c) (categories cfg)))))"
    by (simp add: category_max_def)
  let ?ss = "contribs t c (map snd sd)"
  have av: "avg_score (stat_of cfg c ?ss) * of_int (judges_count (stat_of cfg c ?ss)) = of_int (sum_list ?ss)"
    by (simp add: avg_score_stat_of judges_count_stat_of)
  have tp: "judges_count (stat_of cfg c ?ss) > 0 \<Longrightarrow> total_possible (stat_of cfg c ?ss) = category_max cfg c"
    by (auto simp: stat_of_def zero_stat_def split: if_splits)
  show ?thesis
    using assms av tp
    by (simp add: calculate_all_team_scores_table stat_at_table sum_list_contribs flip: cm)
qed

theorem score_from_submission_max_from_config_witness:
  "\<exists>ts st. calculate_all_team_scores demo_config demo_scores = Inr ts \<and>
           stat_at ts ''Alpha'' ''Tech'' = Some st \<and>
           avg_score st * of_int (judges_count st)
             = of_int (sum_list (submitted_values ''Alpha'' ''Tech'' demo_scores)) \<and>
           (judges_count st > 0 \<longrightarrow>
              total_possible st
              = sum_list (map max_score (concat (map criteria
                   (filter (\<lambda>cat. cat_name cat = ''Tech'') (categories demo_config))))))"
  by (rule score_from_submission_max_from_config[OF demo_team demo_category])

text \<open>
  C10.  Every entry of the result with \<open>judges_count = 0\<close> has average 0, total possible 0
  and percentage 0; an entry with a positive count has the configured maximum of its
  category as total possible.
\<close>

theorem unjudged_pair_is_zero:
  "\<exists>ts. calculate_all_team_scores cfg sd = Inr ts \<and>
        (\<forall>t c st. stat_at ts t c = Some st \<longrightarrow>
           (judges_count st = 0 \<longrightarrow> avg_score st = 0 \<and> total_possible st = 0 \<and> percentage st = 0) \<and>
           (judges_count st > 0 \<longrightarrow> total_possible st = category_max cfg c))"
  by (auto simp: calculate_all_team_scores_table stat_at_table stat_of_def zero_stat_def split: if_splits)

theorem unjudged_pair_is_zero_witness:
  "\<exists>ts. calculate_all_team_scores demo_config demo_scores = Inr ts \<and>
        (\<forall>t c st. stat_at ts t c = Some st \<longrightarrow>
           (judges_count st = 0 \<longrightarrow> avg_score st = 0 \<and> total_possible st = 0 \<and> percentage st = 0) \<and>
           (judges_count st > 0 \<longrightarrow> total_possible st = category_max demo_config c))"
  by (rule unjudged_pair_is_zero)

end
